theory Spec2Isabelle
  imports Main "HOL-Library.AList"
begin

section \<open>The emoji cache of ditto/db/emoji.py\<close>

text \<open>
  The module is a mixin of the bot client.  Its methods read the configuration
  (\<open>CONFIG.EMOJI\<close>), the client's cache of live emoji (\<open>guild.emojis\<close>,
  \<open>self.get_emoji\<close>) and two tables of the database (\<open>Emoji\<close>, \<open>UserEmoji\<close>).
  Each method is embedded as a function from the state before the call to the result and
  the state after it.  An exception is a result \<open>Inl e\<close>; the writes made before a raise
  stay in the returned state: the module borrows a connection with \<open>MaybeAcquire\<close> and
  opens no transaction of its own.
\<close>

subsection \<open>Data\<close>

type_synonym snowflake = nat
type_synonym timestamp = int

text \<open>\<open>discord.Emoji\<close>: the attributes the module reads.\<close>

record discord_emoji =
  emoji_ident :: snowflake
  emoji_guild :: snowflake
  animated :: bool
  emoji_name :: string

text \<open>
  \<open>discord.Guild\<close>: its id and \<open>emoji_limit\<close>.  \<open>guild.emojis\<close> is not a field: it
  is the part of the client's emoji cache that belongs to the guild (\<open>guild_emojis\<close>
  below), so that deleting or creating an emoji is seen by the next read.
\<close>

record guild =
  guild_ident :: snowflake
  emoji_limit :: int

record user =
  user_ident :: snowflake
  user_name :: string
  discriminator :: string

text \<open>Rows of the tables \<open>Emoji\<close> and \<open>UserEmoji\<close>.\<close>

record emoji_row =
  emoji_id :: snowflake
  guild_id :: snowflake
  last_fetched :: timestamp

record user_emoji_row =
  user_id :: snowflake
  bound_emoji_id :: snowflake

text \<open>\<open>CONFIG.EMOJI\<close>: the fields the module reads.\<close>

record config =
  GUILDS :: "guild list"
  LEAVE_FREE :: int
  NOT_FOUND :: discord_emoji

text \<open>
  The exceptions the module raises or lets through.  The two \<open>ValueError\<close>s and the two
  \<open>RuntimeError\<close>s are told apart by their site; \<open>is_RuntimeError\<close> is the test of
  \<open>except RuntimeError\<close>.
\<close>

datatype error =
    ValueError_not_in_cache snowflake
  | RuntimeError_deleted
  | RuntimeError_empty_and_full
  | ValueError_sample
  | IndexError_pop
  | UniqueViolationError

fun is_RuntimeError :: "error \<Rightarrow> bool" where
  "is_RuntimeError RuntimeError_deleted = True"
| "is_RuntimeError RuntimeError_empty_and_full = True"
| "is_RuntimeError (ValueError_not_in_cache i) = False"
| "is_RuntimeError ValueError_sample = False"
| "is_RuntimeError IndexError_pop = False"
| "is_RuntimeError UniqueViolationError = False"

text \<open>
  Every call the module makes on the database or on the platform is journalled, in the
  order of the calls.
\<close>

datatype event =
    Select_Emoji snowflake
  | Select_Oldest
  | Update_Emoji snowflake timestamp
  | Delete_Emoji snowflake
  | Insert_Emoji snowflake snowflake
  | Select_UserEmoji snowflake
  | Delete_UserEmoji snowflake
  | Insert_UserEmoji snowflake snowflake
  | Get_Emoji snowflake
  | Platform_Delete snowflake
  | Platform_Create snowflake snowflake

text \<open>
  The state: the client's cache of live emoji (all guilds the client sees), the two
  tables in storage order, and the journal.
\<close>

record state =
  emojis :: "discord_emoji list"
  Emoji_table :: "emoji_row list"
  UserEmoji_table :: "user_emoji_row list"
  trace :: "event list"

definition log :: "event \<Rightarrow> state \<Rightarrow> state" where
  "log ev s = s\<lparr>trace := trace s @ [ev]\<rparr>"

subsection \<open>The database\<close>

text \<open>
  Modelled from the spec: the table declarations (\<open>ditto/db/tables.py\<close>) and the
  methods they inherit are not among the sources.  The spec (section 6) gives the store
  as row-level fetch, insert, update and delete on two tables keyed as in section 3: an
  asset record is keyed by \<open>emoji_id\<close>, an owner binding by \<open>user_id\<close>.  A fetch returns
  the first matching row in storage order; update and delete of a record act on the rows
  with the record's key; insert refuses a key that is present.
\<close>

definition Emoji_fetch_row :: "snowflake \<Rightarrow> state \<Rightarrow> emoji_row option \<times> state" where
  "Emoji_fetch_row i s =
     (find (\<lambda>r. emoji_id r = i) (Emoji_table s), log (Select_Emoji i) s)"

text \<open>
  \<open>fetch_row(order_by=(last_fetched, "ASC"))\<close>: a row with the least \<open>last_fetched\<close>,
  the first such row in storage order.
\<close>

fun oldest_from :: "emoji_row \<Rightarrow> emoji_row list \<Rightarrow> emoji_row" where
  "oldest_from m [] = m"
| "oldest_from m (r # rs) =
     oldest_from (if last_fetched r < last_fetched m then r else m) rs"

definition oldest :: "emoji_row list \<Rightarrow> emoji_row option" where
  "oldest rows = (case rows of [] \<Rightarrow> None | r # rs \<Rightarrow> Some (oldest_from r rs))"

definition Emoji_fetch_row_oldest :: "state \<Rightarrow> emoji_row option \<times> state" where
  "Emoji_fetch_row_oldest s = (oldest (Emoji_table s), log Select_Oldest s)"

definition Emoji_update_record :: "emoji_row \<Rightarrow> timestamp \<Rightarrow> state \<Rightarrow> state" where
  "Emoji_update_record record now s =
     log (Update_Emoji (emoji_id record) now)
       (s\<lparr>Emoji_table :=
            map (\<lambda>r. if emoji_id r = emoji_id record then r\<lparr>last_fetched := now\<rparr> else r)
              (Emoji_table s)\<rparr>)"

text \<open>
  The delete is row-level, as the spec's section 6 gives it: it removes the rows of the
  table \<open>Emoji\<close> with the record's key and leaves the table \<open>UserEmoji\<close> alone.
\<close>

definition Emoji_delete_record :: "emoji_row \<Rightarrow> state \<Rightarrow> state" where
  "Emoji_delete_record record s =
     log (Delete_Emoji (emoji_id record))
       (s\<lparr>Emoji_table := filter (\<lambda>r. emoji_id r \<noteq> emoji_id record) (Emoji_table s)\<rparr>)"

definition Emoji_insert ::
  "snowflake \<Rightarrow> snowflake \<Rightarrow> timestamp \<Rightarrow> state \<Rightarrow> (error + unit) \<times> state" where
  "Emoji_insert i g now s =
     (if find (\<lambda>r. emoji_id r = i) (Emoji_table s) \<noteq> None
      then (Inl UniqueViolationError, log (Insert_Emoji i g) s)
      else (Inr (),
            log (Insert_Emoji i g)
              (s\<lparr>Emoji_table :=
                   Emoji_table s @ [\<lparr>emoji_id = i, guild_id = g, last_fetched = now\<rparr>]\<rparr>)))"

definition UserEmoji_fetch_row :: "snowflake \<Rightarrow> state \<Rightarrow> user_emoji_row option \<times> state" where
  "UserEmoji_fetch_row u s =
     (find (\<lambda>b. user_id b = u) (UserEmoji_table s), log (Select_UserEmoji u) s)"

definition UserEmoji_delete_record :: "user_emoji_row \<Rightarrow> state \<Rightarrow> state" where
  "UserEmoji_delete_record record s =
     log (Delete_UserEmoji (user_id record))
       (s\<lparr>UserEmoji_table := filter (\<lambda>b. user_id b \<noteq> user_id record) (UserEmoji_table s)\<rparr>)"

definition UserEmoji_insert ::
  "snowflake \<Rightarrow> snowflake \<Rightarrow> state \<Rightarrow> (error + unit) \<times> state" where
  "UserEmoji_insert i u s =
     (if find (\<lambda>b. user_id b = u) (UserEmoji_table s) \<noteq> None
      then (Inl UniqueViolationError, log (Insert_UserEmoji u i) s)
      else (Inr (),
            log (Insert_UserEmoji u i)
              (s\<lparr>UserEmoji_table :=
                   UserEmoji_table s @ [\<lparr>user_id = u, bound_emoji_id = i\<rparr>]\<rparr>)))"

subsection \<open>The platform\<close>

text \<open>
  \<open>self.get_emoji\<close> looks the id up in the client's cache.  \<open>emoji.delete()\<close> and
  \<open>guild.create_custom_emoji\<close> are taken to succeed and to be seen by the cache at
  once; the id of a created emoji is chosen by the platform (the argument \<open>fresh\<close>).
\<close>

definition get_emoji :: "snowflake \<Rightarrow> state \<Rightarrow> discord_emoji option \<times> state" where
  "get_emoji i s = (find (\<lambda>e. emoji_ident e = i) (emojis s), log (Get_Emoji i) s)"

definition emoji_delete :: "discord_emoji \<Rightarrow> state \<Rightarrow> state" where
  "emoji_delete e s =
     log (Platform_Delete (emoji_ident e))
       (s\<lparr>emojis := filter (\<lambda>x. emoji_ident x \<noteq> emoji_ident e) (emojis s)\<rparr>)"

definition create_custom_emoji ::
  "guild \<Rightarrow> string \<Rightarrow> bool \<Rightarrow> snowflake \<Rightarrow> state \<Rightarrow> discord_emoji \<times> state" where
  "create_custom_emoji g name anim fresh s =
     (let e = \<lparr>emoji_ident = fresh, emoji_guild = guild_ident g,
                animated = anim, emoji_name = name\<rparr>
      in (e, log (Platform_Create (guild_ident g) fresh) (s\<lparr>emojis := emojis s @ [e]\<rparr>)))"

definition guild_emojis :: "state \<Rightarrow> guild \<Rightarrow> discord_emoji list" where
  "guild_emojis s g = filter (\<lambda>e. emoji_guild e = guild_ident g) (emojis s)"

subsection \<open>random.sample with counts\<close>

text \<open>
  \<open>random.sample(population, counts=counts, k=1)\<close> as the standard library computes
  it: the running sums of the counts, the last of them the total; a draw from
  \<open>range(total)\<close>; the element at \<open>bisect_right\<close> of the draw in the remaining sums.
  The draw is the argument \<open>rnd\<close>, reduced into the range.
\<close>

fun accumulate_from :: "int \<Rightarrow> int list \<Rightarrow> int list" where
  "accumulate_from acc [] = []"
| "accumulate_from acc (c # cs) = (acc + c) # accumulate_from (acc + c) cs"

definition accumulate :: "int list \<Rightarrow> int list" where
  "accumulate cs = accumulate_from 0 cs"

function bisect_right :: "int list \<Rightarrow> int \<Rightarrow> nat \<Rightarrow> nat \<Rightarrow> nat" where
  "bisect_right a x lo hi =
     (if lo < hi
      then (let mid = (lo + hi) div 2
            in if x < a ! mid then bisect_right a x lo mid
               else bisect_right a x (mid + 1) hi)
      else lo)"
  by pat_completeness auto
termination
  by (relation "measure (\<lambda>(a, x, lo, hi). hi - lo)") auto

declare bisect_right.simps [simp del]

definition random_sample :: "'a list \<Rightarrow> int list \<Rightarrow> nat \<Rightarrow> error + 'a" where
  "random_sample population counts rnd =
     (let cum_counts = accumulate counts
      in if length cum_counts \<noteq> length population then Inl ValueError_sample
         else if cum_counts = [] then Inl IndexError_pop
         else (let total = last cum_counts;
                   cum_counts = butlast cum_counts
               in if total \<le> 0 then Inl ValueError_sample
                  else (let selection = int (rnd mod nat total)
                        in Inr (population !
                                  bisect_right cum_counts selection 0 (length cum_counts)))))"

subsection \<open>The selector\<close>

definition total_free :: "state \<Rightarrow> guild \<Rightarrow> int" where
  "total_free s g =
     emoji_limit g - int (length (filter (\<lambda>e. \<not> animated e) (guild_emojis s g)))"

text \<open>
  The loop that fills the dictionary \<open>free_spaces\<close>: an assignment to a key that is
  present overwrites its value and keeps its position.
\<close>

fun free_spaces_loop ::
  "config \<Rightarrow> state \<Rightarrow> guild list \<Rightarrow> (guild \<times> int) list \<Rightarrow> (guild \<times> int) list" where
  "free_spaces_loop cfg s [] free_spaces = free_spaces"
| "free_spaces_loop cfg s (g # gs) free_spaces =
     free_spaces_loop cfg s gs
       (if total_free s g > LEAVE_FREE cfg
        then AList.update g (total_free s g) free_spaces
        else free_spaces)"

definition delete_emoji :: "snowflake \<Rightarrow> state \<Rightarrow> (error + unit) \<times> state" where
  "delete_emoji i s =
     (case Emoji_fetch_row i s of
        (None, s1) \<Rightarrow> (Inl (ValueError_not_in_cache i), s1)
      | (Some record, s1) \<Rightarrow>
          (case get_emoji i s1 of
             (None, s2) \<Rightarrow> (Inr (), Emoji_delete_record record s2)
           | (Some emoji, s2) \<Rightarrow> (Inr (), Emoji_delete_record record (emoji_delete emoji s2))))"

lemma oldest_from_in: "oldest_from m rs \<in> set (m # rs)"
  by (induction rs arbitrary: m) auto

lemma oldest_in: "oldest rows = Some r \<Longrightarrow> r \<in> set rows"
  using oldest_from_in by (auto simp: oldest_def split: list.splits)

lemma find_key_in: "r \<in> set rows \<Longrightarrow> find (\<lambda>x. f x = f r) rows \<noteq> None"
  by (induction rows) auto

lemma find_key: "find (\<lambda>x. f x = k) rows = Some r \<Longrightarrow> r \<in> set rows \<and> f r = k"
  by (induction rows) (auto split: if_splits)

lemma delete_emoji_rows:
  assumes "r \<in> set (Emoji_table s)"
  shows "\<exists>s2. delete_emoji (emoji_id r) s = (Inr (), s2) \<and>
           Emoji_table s2 = filter (\<lambda>x. emoji_id x \<noteq> emoji_id r) (Emoji_table s)"
proof -
  obtain r' where r': "find (\<lambda>x. emoji_id x = emoji_id r) (Emoji_table s) = Some r'"
    using find_key_in [OF assms, of emoji_id] by auto
  then have "emoji_id r' = emoji_id r"
    using find_key by fastforce
  with r' show ?thesis
    by (simp add: delete_emoji_def Emoji_fetch_row_def get_emoji_def emoji_delete_def
        Emoji_delete_record_def log_def split: option.split)
qed

lemma filter_key_shorter:
  "r \<in> set rows \<Longrightarrow> length (filter (\<lambda>x. f x \<noteq> f r) rows) < length rows"
  by (rule length_filter_less [of r]) auto

text \<open>
  \<open>_find_guild\<close>.  The keys of the dictionary are guilds, compared as the records
  they are (the client holds one \<open>Guild\<close> object for an id).  The argument \<open>rnd\<close> is
  the random draw of the one \<open>random.sample\<close> a call can make.  The method calls
  itself after each eviction; the recursion is on the number of records, which
  \<open>delete_emoji\<close> on a record just fetched makes smaller.
\<close>

function find_guild :: "config \<Rightarrow> nat \<Rightarrow> state \<Rightarrow> (error + guild) \<times> state" where
  "find_guild cfg rnd s =
     (let free_spaces = free_spaces_loop cfg s (GUILDS cfg) []
      in if free_spaces \<noteq> []
         then (random_sample (map fst free_spaces) (map snd free_spaces) rnd, s)
         else (case Emoji_fetch_row_oldest s of
                 (None, s1) \<Rightarrow> (Inl RuntimeError_empty_and_full, s1)
               | (Some record, s1) \<Rightarrow>
                   (case delete_emoji (emoji_id record) s1 of
                      (Inl e, s2) \<Rightarrow> (Inl e, s2)
                    | (Inr u, s2) \<Rightarrow> find_guild cfg rnd s2)))"
  by pat_completeness auto
termination
proof (relation "measure (\<lambda>(cfg, rnd, s). length (Emoji_table s))")
  show "wf (measure (\<lambda>(cfg, rnd, s). length (Emoji_table s)))"
    by simp
next
  fix cfg :: config and rnd :: nat and s s1 s2 :: state and row :: emoji_row
    and ro :: "emoji_row option" and x :: "error + unit"
  assume p: "(ro, s1) = Emoji_fetch_row_oldest s" "ro = Some row"
    and q: "(x, s2) = delete_emoji (emoji_id row) s1"
  from p have r: "row \<in> set (Emoji_table s)" and s1: "Emoji_table s1 = Emoji_table s"
    by (auto simp: Emoji_fetch_row_oldest_def log_def intro: oldest_in [OF sym])
  from r s1 delete_emoji_rows [of row s1] q
  have "Emoji_table s2 = filter (\<lambda>x. emoji_id x \<noteq> emoji_id row) (Emoji_table s)"
    by auto
  with filter_key_shorter [OF r, of emoji_id]
  show "((cfg, rnd, s2), (cfg, rnd, s)) \<in> measure (\<lambda>(cfg, rnd, s). length (Emoji_table s))"
    by simp
qed

declare find_guild.simps [simp del]

subsection \<open>Creation, fetch and deletion\<close>

text \<open>
  \<open>now\<close> is the time of the call: the value of \<open>datetime.now\<close> in \<open>fetch_emoji\<close> and
  the default of the column \<open>last_fetched\<close> on insert.  \<open>fresh\<close> is the id the platform
  gives to a created emoji, and \<open>anim\<close> tells whether the image is animated.
\<close>

definition create_emoji ::
  "config \<Rightarrow> nat \<Rightarrow> snowflake \<Rightarrow> timestamp \<Rightarrow> string \<Rightarrow> bool \<Rightarrow> state
     \<Rightarrow> (error + discord_emoji) \<times> state" where
  "create_emoji cfg rnd fresh now name anim s =
     (case find_guild cfg rnd s of
        (Inl e, s1) \<Rightarrow> (Inl e, s1)
      | (Inr g, s1) \<Rightarrow>
          (case create_custom_emoji g name anim fresh s1 of
             (emoji, s2) \<Rightarrow>
               (case Emoji_insert (emoji_ident emoji) (guild_ident g) now s2 of
                  (Inl e, s3) \<Rightarrow> (Inl e, s3)
                | (Inr u, s3) \<Rightarrow> (Inr emoji, s3))))"

text \<open>
  \<open>re.sub(r"[^A-Za-z0-9_]", "", user.name[:28]) + str(user.discriminator)\<close>.  The
  image made by \<open>create_user_image\<close> is a PNG, so the emoji is not animated.
\<close>

definition name_char :: "char \<Rightarrow> bool" where
  "name_char c \<longleftrightarrow>
     c \<in> set ''ABCDEFGHIJKLMNOPQRSTUVWXYZabcdefghijklmnopqrstuvwxyz0123456789_''"

definition create_user_emoji ::
  "config \<Rightarrow> nat \<Rightarrow> snowflake \<Rightarrow> timestamp \<Rightarrow> user \<Rightarrow> state
     \<Rightarrow> (error + discord_emoji) \<times> state" where
  "create_user_emoji cfg rnd fresh now usr s =
     (let name = filter name_char (take 28 (user_name usr)) @ discriminator usr
      in case create_emoji cfg rnd fresh now name False s of
           (Inl e, s1) \<Rightarrow> (Inl e, s1)
         | (Inr emoji, s1) \<Rightarrow>
             (case UserEmoji_insert (emoji_ident emoji) (user_ident usr) s1 of
                (Inl e, s2) \<Rightarrow> (Inl e, s2)
              | (Inr u, s2) \<Rightarrow> (Inr emoji, s2)))"

definition fetch_emoji ::
  "config \<Rightarrow> timestamp \<Rightarrow> snowflake option \<Rightarrow> state
     \<Rightarrow> (error + discord_emoji) \<times> state" where
  "fetch_emoji cfg now emoji_id_opt s =
     (case emoji_id_opt of
        None \<Rightarrow> (Inr (NOT_FOUND cfg), s)
      | Some i \<Rightarrow>
          (case Emoji_fetch_row i s of
             (None, s1) \<Rightarrow> (Inl (ValueError_not_in_cache i), s1)
           | (Some record, s1) \<Rightarrow>
               (case get_emoji i (Emoji_update_record record now s1) of
                  (None, s2) \<Rightarrow> (Inl RuntimeError_deleted, Emoji_delete_record record s2)
                | (Some emoji, s2) \<Rightarrow> (Inr emoji, s2))))"

definition fetch_user_emoji ::
  "config \<Rightarrow> nat \<Rightarrow> snowflake \<Rightarrow> timestamp \<Rightarrow> user option \<Rightarrow> state
     \<Rightarrow> (error + discord_emoji) \<times> state" where
  "fetch_user_emoji cfg rnd fresh now user_opt s =
     (case user_opt of
        None \<Rightarrow> fetch_emoji cfg now None s
      | Some usr \<Rightarrow>
          (case UserEmoji_fetch_row (user_ident usr) s of
             (None, s1) \<Rightarrow> create_user_emoji cfg rnd fresh now usr s1
           | (Some record, s1) \<Rightarrow>
               (case fetch_emoji cfg now (Some (bound_emoji_id record)) s1 of
                  (Inr emoji, s2) \<Rightarrow> (Inr emoji, s2)
                | (Inl e, s2) \<Rightarrow>
                    if is_RuntimeError e
                    then create_user_emoji cfg rnd fresh now usr
                           (UserEmoji_delete_record record s2)
                    else (Inl e, s2))))"

subsection \<open>Reading the journal\<close>

text \<open>The ids of the records deleted from the table \<open>Emoji\<close>, in the order of the deletes.\<close>

fun deleted :: "event list \<Rightarrow> snowflake list" where
  "deleted [] = []"
| "deleted (Delete_Emoji i # t) = i # deleted t"
| "deleted (ev # t) = deleted t"

subsection \<open>Example states\<close>

text \<open>
  The pool of the spec's end-to-end scenario: two guilds of capacity 2 and
  \<open>LEAVE_FREE = 0\<close>.  In \<open>s_full\<close> both guilds are full, every emoji has a record,
  the oldest record is that of emoji 10, and user 7 is bound to emoji 10.
\<close>

definition guild_A :: guild where "guild_A = \<lparr>guild_ident = 1, emoji_limit = 2\<rparr>"
definition guild_B :: guild where "guild_B = \<lparr>guild_ident = 2, emoji_limit = 2\<rparr>"

definition static_emoji :: "snowflake \<Rightarrow> snowflake \<Rightarrow> discord_emoji" where
  "static_emoji i g = \<lparr>emoji_ident = i, emoji_guild = g, animated = False, emoji_name = ''e''\<rparr>"

definition cfg0 :: config where
  "cfg0 = \<lparr>GUILDS = [guild_A, guild_B], LEAVE_FREE = 0, NOT_FOUND = static_emoji 0 0\<rparr>"

definition s_full :: state where
  "s_full = \<lparr>emojis = [static_emoji 10 1, static_emoji 11 1, static_emoji 12 2, static_emoji 13 2],
     Emoji_table = [\<lparr>emoji_id = 11, guild_id = 1, last_fetched = 5\<rparr>,
                    \<lparr>emoji_id = 10, guild_id = 1, last_fetched = 0\<rparr>,
                    \<lparr>emoji_id = 12, guild_id = 2, last_fetched = 7\<rparr>,
                    \<lparr>emoji_id = 13, guild_id = 2, last_fetched = 9\<rparr>],
     UserEmoji_table = [\<lparr>user_id = 7, bound_emoji_id = 10\<rparr>],
     trace = []\<rparr>"

text \<open>
  \<open>s_desync\<close>: as \<open>s_full\<close>, but emoji 10 has been deleted on the platform while
  its record and the binding of user 7 remain.
\<close>

definition s_desync :: state where
  "s_desync = s_full\<lparr>emojis := [static_emoji 11 1, static_emoji 12 2, static_emoji 13 2]\<rparr>"

definition user_7 :: user where
  "user_7 = \<lparr>user_ident = 7, user_name = ''Ann B.'', discriminator = ''0042''\<rparr>"

text \<open>
  \<open>cfg1\<close> reserves one slot of headroom.  In \<open>s_half\<close> each guild holds one emoji,
  made outside the cache: no record exists.
\<close>

definition cfg1 :: config where
  "cfg1 = cfg0\<lparr>LEAVE_FREE := 1\<rparr>"

definition s_half :: state where
  "s_half = \<lparr>emojis = [static_emoji 10 1, static_emoji 12 2], Emoji_table = [],
     UserEmoji_table = [], trace = []\<rparr>"

definition row_10 :: emoji_row where
  "row_10 = \<lparr>emoji_id = 10, guild_id = 1, last_fetched = 0\<rparr>"

text \<open>\<open>cfg_neg\<close>: the pool with a negative \<open>LEAVE_FREE\<close>.\<close>

definition cfg_neg :: config where
  "cfg_neg = cfg0\<lparr>LEAVE_FREE := - 1\<rparr>"

text \<open>User 8 has no binding; \<open>binding_7\<close> is the binding of user 7.\<close>

definition user_8 :: user where
  "user_8 = \<lparr>user_ident = 8, user_name = ''bob'', discriminator = ''0007''\<rparr>"

definition binding_7 :: user_emoji_row where
  "binding_7 = \<lparr>user_id = 7, bound_emoji_id = 10\<rparr>"

section \<open>Lemmas\<close>

subsection \<open>Tables\<close>

lemma find_None_iff_key: "find (\<lambda>x. f x = k) rows = None \<longleftrightarrow> k \<notin> f ` set rows"
  by (induction rows) auto

lemma find_filter_other: "find (\<lambda>x. f x = k) (filter (\<lambda>x. f x \<noteq> k) rows) = None"
  by (induction rows) auto

lemma filter_update_key:
  "filter (\<lambda>r. emoji_id r \<noteq> k) (map (\<lambda>r. if emoji_id r = k then r\<lparr>last_fetched := now\<rparr> else r) rows)
   = filter (\<lambda>r. emoji_id r \<noteq> k) rows"
  by (induction rows) auto

subsection \<open>The dictionary of free spaces and the weighted sample\<close>

lemma set_update_subset: "set (AList.update k v al) \<subseteq> insert (k, v) (set al)"
  by (induction al) auto

lemma free_spaces_loop_sound:
  "(g, c) \<in> set (free_spaces_loop cfg s gs acc) \<Longrightarrow>
     (g, c) \<in> set acc \<or> (g \<in> set gs \<and> c = total_free s g \<and> LEAVE_FREE cfg < c)"
proof (induction gs arbitrary: acc)
  case Nil
  then show ?case by simp
next
  case (Cons a gs)
  then show ?case
    using set_update_subset [of a "total_free s a" acc]
    by (fastforce split: if_splits)
qed

lemma free_spaces_loop_empty:
  "free_spaces_loop cfg s gs acc = [] \<longleftrightarrow>
     acc = [] \<and> (\<forall>g \<in> set gs. total_free s g \<le> LEAVE_FREE cfg)"
  by (induction gs arbitrary: acc) auto

lemma length_accumulate_from: "length (accumulate_from a cs) = length cs"
  by (induction cs arbitrary: a) auto

lemma accumulate_from_0: "cs \<noteq> [] \<Longrightarrow> accumulate_from a cs ! 0 = a + cs ! 0"
  by (cases cs) auto

lemma accumulate_from_Suc:
  "Suc i < length cs \<Longrightarrow>
     accumulate_from a cs ! Suc i = accumulate_from a cs ! i + cs ! Suc i"
proof (induction cs arbitrary: a i)
  case Nil
  then show ?case by simp
next
  case (Cons c cs)
  show ?case
  proof (cases i)
    case 0
    with Cons.prems show ?thesis by (cases cs) auto
  next
    case (Suc j)
    with Cons show ?thesis by simp
  qed
qed

lemma bisect_right_bounds:
  "lo \<le> hi \<Longrightarrow> hi \<le> length a \<Longrightarrow>
   (lo = 0 \<or> a ! (lo - 1) \<le> x) \<Longrightarrow> (hi = length a \<or> x < a ! hi) \<Longrightarrow>
   lo \<le> bisect_right a x lo hi \<and> bisect_right a x lo hi \<le> hi \<and>
   (bisect_right a x lo hi = 0 \<or> a ! (bisect_right a x lo hi - 1) \<le> x) \<and>
   (bisect_right a x lo hi = length a \<or> x < a ! bisect_right a x lo hi)"
proof (induction a x lo hi rule: bisect_right.induct)
  case (1 a x lo hi)
  show ?case
  proof (cases "lo < hi")
    case False
    then have "bisect_right a x lo hi = lo"
      by (subst bisect_right.simps) simp
    moreover from False "1.prems" have "lo = hi" by simp
    ultimately show ?thesis using "1.prems" by auto
  next
    case True
    define mid where "mid = (lo + hi) div 2"
    have mid: "lo \<le> mid" "mid < hi" using True by (auto simp: mid_def)
    show ?thesis
    proof (cases "x < a ! mid")
      case lt: True
      have eq: "bisect_right a x lo hi = bisect_right a x lo mid"
        using True lt by (subst bisect_right.simps) (simp add: mid_def Let_def)
      have "lo \<le> bisect_right a x lo mid \<and> bisect_right a x lo mid \<le> mid \<and>
        (bisect_right a x lo mid = 0 \<or> a ! (bisect_right a x lo mid - 1) \<le> x) \<and>
        (bisect_right a x lo mid = length a \<or> x < a ! bisect_right a x lo mid)"
        using "1.IH"(1) [OF True mid_def lt] mid "1.prems" lt by auto
      with eq mid show ?thesis by auto
    next
      case ge: False
      have eq: "bisect_right a x lo hi = bisect_right a x (mid + 1) hi"
        using True ge by (subst bisect_right.simps) (simp add: mid_def Let_def)
      have "mid + 1 \<le> bisect_right a x (mid + 1) hi \<and> bisect_right a x (mid + 1) hi \<le> hi \<and>
        (bisect_right a x (mid + 1) hi = 0 \<or> a ! (bisect_right a x (mid + 1) hi - 1) \<le> x) \<and>
        (bisect_right a x (mid + 1) hi = length a \<or> x < a ! bisect_right a x (mid + 1) hi)"
        using "1.IH"(2) [OF True mid_def ge] mid "1.prems" ge by auto
      with eq mid show ?thesis by auto
    qed
  qed
qed

lemma random_sample_positive:
  assumes len: "length population = length counts"
    and res: "random_sample population counts rnd = Inr g"
  shows "\<exists>i < length population. g = population ! i \<and> 0 < counts ! i"
proof -
  define cum where "cum = accumulate counts"
  define n where "n = length counts"
  define a where "a = butlast cum"
  define x where "x = int (rnd mod nat (last cum))"
  define i where "i = bisect_right a x 0 (length a)"
  have lcum: "length cum = n"
    by (simp add: cum_def n_def accumulate_def length_accumulate_from)
  from res len have ne: "cum \<noteq> []" and total: "0 < last cum"
    and g: "g = population ! i"
    by (auto simp: random_sample_def Let_def cum_def a_def x_def i_def split: if_splits)
  from ne lcum have n: "0 < n" by auto
  have la: "length a = n - 1" by (simp add: a_def lcum)
  have last: "last cum = cum ! (n - 1)"
    using ne lcum by (simp add: last_conv_nth)
  have a_nth: "j < n - 1 \<Longrightarrow> a ! j = cum ! j" for j
    by (simp add: a_def nth_butlast lcum)
  have "rnd mod nat (last cum) < nat (last cum)"
    using total by simp
  then have x: "0 \<le> x" "x < last cum"
    by (simp_all add: x_def zless_nat_eq_int_zless)
  have b: "i \<le> length a" "i = 0 \<or> a ! (i - 1) \<le> x" "i = length a \<or> x < a ! i"
    using bisect_right_bounds [of 0 "length a" a x] by (auto simp: i_def)
  have upper: "x < cum ! i"
  proof (cases "i = length a")
    case True
    with x last la show ?thesis by simp
  next
    case False
    with b la have "i < n - 1" by simp
    with b False a_nth show ?thesis by simp
  qed
  have pos: "0 < counts ! i"
  proof (cases i)
    case 0
    have "cum ! 0 = counts ! 0"
      using n by (simp add: cum_def accumulate_def n_def accumulate_from_0)
    with upper x 0 show ?thesis by simp
  next
    case (Suc j)
    with b la have j: "Suc j < n" by simp
    then have "cum ! Suc j = cum ! j + counts ! Suc j"
      by (simp add: cum_def accumulate_def n_def accumulate_from_Suc)
    moreover have "cum ! j \<le> x"
      using b Suc j a_nth [of j] by simp
    ultimately show ?thesis using upper Suc by simp
  qed
  from b la n have "i < n" by simp
  with g pos len show ?thesis by (auto simp: n_def)
qed

lemma find_guild_eligible:
  "free_spaces_loop cfg s (GUILDS cfg) [] \<noteq> [] \<Longrightarrow>
   find_guild cfg rnd s =
     (random_sample (map fst (free_spaces_loop cfg s (GUILDS cfg) []))
        (map snd (free_spaces_loop cfg s (GUILDS cfg) [])) rnd, s)"
  by (subst find_guild.simps) (simp add: Let_def)

lemma find_guild_no_record:
  "free_spaces_loop cfg s (GUILDS cfg) [] = [] \<Longrightarrow> Emoji_table s = [] \<Longrightarrow>
   find_guild cfg rnd s = (Inl RuntimeError_empty_and_full, log Select_Oldest s)"
  by (subst find_guild.simps) (simp add: Let_def Emoji_fetch_row_oldest_def oldest_def)

subsection \<open>Oldest record, deletion\<close>

lemma oldest_from_min:
  "last_fetched (oldest_from m rs) \<le> last_fetched m \<and>
   (\<forall>x \<in> set rs. last_fetched (oldest_from m rs) \<le> last_fetched x)"
proof (induction rs arbitrary: m)
  case Nil
  then show ?case by simp
next
  case (Cons r rs)
  from Cons.IH [of "if last_fetched r < last_fetched m then r else m"]
  show ?case by (auto split: if_splits)
qed

lemma oldest_min: "oldest rows = Some r \<Longrightarrow> x \<in> set rows \<Longrightarrow> last_fetched r \<le> last_fetched x"
  using oldest_from_min by (fastforce simp: oldest_def split: list.splits)

lemma oldest_Some: "rows \<noteq> [] \<Longrightarrow> \<exists>r. oldest rows = Some r"
  by (cases rows) (auto simp: oldest_def)

lemma find_emoji_filter:
  "filter (\<lambda>e. emoji_ident e \<noteq> k) es = es" if "find (\<lambda>e. emoji_ident e = k) es = None"
  using that by (induction es) (auto split: if_splits)

lemma find_emoji_ident: "find (\<lambda>e. emoji_ident e = k) es = Some e \<Longrightarrow> emoji_ident e = k"
  using find_key [of emoji_ident k es e] by simp

text \<open>What \<open>delete_emoji\<close> does to a record that is present.\<close>

lemma delete_emoji_present:
  assumes "i \<in> emoji_id ` set (Emoji_table s)"
  shows "\<exists>s1. delete_emoji i s = (Inr (), s1) \<and>
           Emoji_table s1 = filter (\<lambda>r. emoji_id r \<noteq> i) (Emoji_table s) \<and>
           emojis s1 = filter (\<lambda>e. emoji_ident e \<noteq> i) (emojis s) \<and>
           UserEmoji_table s1 = UserEmoji_table s \<and>
           trace s1 = trace s @ [Select_Emoji i, Get_Emoji i] @
             (if i \<in> emoji_ident ` set (emojis s) then [Platform_Delete i] else []) @
             [Delete_Emoji i]"
proof -
  from assms obtain r where r: "find (\<lambda>r. emoji_id r = i) (Emoji_table s) = Some r"
    using find_None_iff_key [of emoji_id i "Emoji_table s"] by fastforce
  then have k: "emoji_id r = i" using find_key by fastforce
  show ?thesis
  proof (cases "find (\<lambda>e. emoji_ident e = i) (emojis s)")
    case None
    then have "i \<notin> emoji_ident ` set (emojis s)" by (simp add: find_None_iff_key)
    with None r k show ?thesis
      by (simp add: delete_emoji_def Emoji_fetch_row_def get_emoji_def
          Emoji_delete_record_def log_def find_emoji_filter)
  next
    case (Some e)
    then have "i \<in> emoji_ident ` set (emojis s)"
      using find_None_iff_key [of emoji_ident i "emojis s"] by simp
    with Some r k find_emoji_ident [OF Some] show ?thesis
      by (simp add: delete_emoji_def Emoji_fetch_row_def get_emoji_def emoji_delete_def
          Emoji_delete_record_def log_def)
  qed
qed

lemma delete_emoji_absent:
  assumes "i \<notin> emoji_id ` set (Emoji_table s)"
  shows "delete_emoji i s = (Inl (ValueError_not_in_cache i), log (Select_Emoji i) s)"
proof -
  from assms have "find (\<lambda>r. emoji_id r = i) (Emoji_table s) = None"
    by (simp add: find_None_iff_key)
  then show ?thesis
    by (simp add: delete_emoji_def Emoji_fetch_row_def)
qed

subsection \<open>The selector\<close>

lemma deleted_append: "deleted (a @ b) = deleted a @ deleted b"
  by (induction a rule: deleted.induct) auto

lemma total_free_log [simp]: "total_free (log ev s) g = total_free s g"
  by (simp add: total_free_def guild_emojis_def log_def)

lemma free_spaces_loop_log [simp]:
  "free_spaces_loop cfg (log ev s) gs acc = free_spaces_loop cfg s gs acc"
  by (induction gs arbitrary: acc) auto

lemma no_free_space:
  "free_spaces_loop cfg s (GUILDS cfg) [] = [] \<longleftrightarrow>
     (\<forall>g \<in> set (GUILDS cfg). total_free s g \<le> LEAVE_FREE cfg)"
  by (simp add: free_spaces_loop_empty)

lemma find_guild_step:
  assumes "free_spaces_loop cfg s (GUILDS cfg) [] = []"
    and "oldest (Emoji_table s) = Some r"
    and "delete_emoji (emoji_id r) (log Select_Oldest s) = (Inr (), s1)"
  shows "find_guild cfg rnd s = find_guild cfg rnd s1"
  using assms by (subst find_guild.simps) (simp add: Let_def Emoji_fetch_row_oldest_def)

lemma evict_oldest:
  assumes "oldest (Emoji_table s) = Some r"
  shows "\<exists>s1. delete_emoji (emoji_id r) (log Select_Oldest s) = (Inr (), s1) \<and>
           Emoji_table s1 = filter (\<lambda>x. emoji_id x \<noteq> emoji_id r) (Emoji_table s) \<and>
           emojis s1 = filter (\<lambda>e. emoji_ident e \<noteq> emoji_id r) (emojis s) \<and>
           UserEmoji_table s1 = UserEmoji_table s \<and>
           trace s1 = trace s @ [Select_Oldest, Select_Emoji (emoji_id r), Get_Emoji (emoji_id r)] @
             (if emoji_id r \<in> emoji_ident ` set (emojis s) then [Platform_Delete (emoji_id r)]
              else []) @
             [Delete_Emoji (emoji_id r)]"
proof -
  from assms have "emoji_id r \<in> emoji_id ` set (Emoji_table (log Select_Oldest s))"
    by (auto simp: log_def dest: oldest_in)
  from delete_emoji_present [OF this] show ?thesis
    by (auto simp: log_def)
qed

lemma find_guild_induct [case_names select empty evict]:
  assumes select: "\<And>s. free_spaces_loop cfg s (GUILDS cfg) [] \<noteq> [] \<Longrightarrow> P s"
    and empty: "\<And>s. free_spaces_loop cfg s (GUILDS cfg) [] = [] \<Longrightarrow> Emoji_table s = [] \<Longrightarrow> P s"
    and evict: "\<And>s r s1. free_spaces_loop cfg s (GUILDS cfg) [] = [] \<Longrightarrow>
        oldest (Emoji_table s) = Some r \<Longrightarrow>
        delete_emoji (emoji_id r) (log Select_Oldest s) = (Inr (), s1) \<Longrightarrow> P s1 \<Longrightarrow> P s"
  shows "P s"
proof (induction "length (Emoji_table s)" arbitrary: s rule: less_induct)
  case less
  show ?case
  proof (cases "free_spaces_loop cfg s (GUILDS cfg) [] = []")
    case False
    then show ?thesis by (rule select)
  next
    case True
    show ?thesis
    proof (cases "Emoji_table s = []")
      case True
      with \<open>free_spaces_loop cfg s (GUILDS cfg) [] = []\<close> show ?thesis by (rule empty)
    next
      case False
      then obtain r where r: "oldest (Emoji_table s) = Some r"
        using oldest_Some by blast
      from evict_oldest [OF r] obtain s1
        where s1: "delete_emoji (emoji_id r) (log Select_Oldest s) = (Inr (), s1)"
          and rows: "Emoji_table s1 = filter (\<lambda>x. emoji_id x \<noteq> emoji_id r) (Emoji_table s)"
        by blast
      from r have "r \<in> set (Emoji_table s)" by (rule oldest_in)
      with rows have "length (Emoji_table s1) < length (Emoji_table s)"
        by (simp add: filter_key_shorter)
      then have "P s1" by (rule less)
      with True r s1 show ?thesis by (rule evict)
    qed
  qed
qed

lemma last_accumulate_from_pos:
  "cs \<noteq> [] \<Longrightarrow> \<forall>c \<in> set cs. 0 < c \<Longrightarrow> 0 \<le> a \<Longrightarrow> 0 < last (accumulate_from a cs)"
proof (induction cs arbitrary: a)
  case Nil
  then show ?case by simp
next
  case (Cons c cs)
  show ?case
  proof (cases cs)
    case Nil
    with Cons.prems show ?thesis by simp
  next
    case (Cons d ds)
    with Cons.prems Cons.IH [of "a + c"] show ?thesis
      by (simp del: accumulate_from.simps(2) add: accumulate_from.simps(2) [of a c])
  qed
qed

lemma random_sample_Inr:
  assumes "length population = length counts" and "counts \<noteq> []" and "\<forall>c \<in> set counts. 0 < c"
  shows "\<exists>g. random_sample population counts rnd = Inr g"
proof -
  have "0 < last (accumulate counts)"
    using assms by (simp add: accumulate_def last_accumulate_from_pos)
  moreover have "accumulate counts \<noteq> []"
    using assms length_accumulate_from [of 0 counts] by (auto simp: accumulate_def)
  ultimately show ?thesis
    using assms by (simp add: random_sample_def Let_def accumulate_def length_accumulate_from)
qed

lemma select_positive:
  assumes "random_sample (map fst (free_spaces_loop cfg s (GUILDS cfg) []))
             (map snd (free_spaces_loop cfg s (GUILDS cfg) [])) rnd = Inr g"
  shows "g \<in> set (GUILDS cfg) \<and> 0 < total_free s g \<and> LEAVE_FREE cfg < total_free s g"
proof -
  let ?fs = "free_spaces_loop cfg s (GUILDS cfg) []"
  from random_sample_positive [OF _ assms] obtain i
    where i: "i < length ?fs" "g = map fst ?fs ! i" "0 < map snd ?fs ! i"
    by auto
  then have "(g, snd (?fs ! i)) \<in> set ?fs"
    by (metis nth_map nth_mem prod.collapse)
  from free_spaces_loop_sound [OF this] i show ?thesis by auto
qed

lemma select_succeeds:
  assumes "0 \<le> LEAVE_FREE cfg" and "free_spaces_loop cfg s (GUILDS cfg) [] \<noteq> []"
  shows "\<exists>g. random_sample (map fst (free_spaces_loop cfg s (GUILDS cfg) []))
             (map snd (free_spaces_loop cfg s (GUILDS cfg) [])) rnd = Inr g"
proof (rule random_sample_Inr)
  let ?fs = "free_spaces_loop cfg s (GUILDS cfg) []"
  show "length (map fst ?fs) = length (map snd ?fs)" by simp
  show "map snd ?fs \<noteq> []" using assms(2) by simp
  show "\<forall>c \<in> set (map snd ?fs). 0 < c"
  proof
    fix c assume "c \<in> set (map snd ?fs)"
    then obtain g where "(g, c) \<in> set ?fs" by auto
    from free_spaces_loop_sound [OF this] assms(1) show "0 < c" by auto
  qed
qed

lemma key_filter_length:
  "distinct (map f rows) \<Longrightarrow> r \<in> set rows \<Longrightarrow>
     Suc (length (filter (\<lambda>x. f x \<noteq> f r) rows)) = length rows"
proof (induction rows)
  case Nil
  then show ?case by simp
next
  case (Cons a rows)
  show ?case
  proof (cases "f a = f r")
    case True
    with Cons.prems have "\<forall>x \<in> set rows. f x \<noteq> f r" by (auto simp: image_iff)
    then have "filter (\<lambda>x. f x \<noteq> f r) rows = rows" by simp
    with True show ?thesis by simp
  next
    case False
    with Cons show ?thesis by auto
  qed
qed

lemma accumulate_from_Nil: "accumulate_from a cs = [] \<longleftrightarrow> cs = []"
  by (cases cs) auto

text \<open>The outcome of the selector, the records it deletes and the journal.\<close>

lemma find_guild_outcome:
  "\<exists>res s' ids. find_guild cfg rnd s = (res, s') \<and>
     deleted (trace s') = deleted (trace s) @ ids \<and>
     length ids + length (Emoji_table s') \<le> length (Emoji_table s) \<and>
     (distinct (map emoji_id (Emoji_table s)) \<longrightarrow>
        length ids + length (Emoji_table s') = length (Emoji_table s)) \<and>
     (case res of
        Inr g \<Rightarrow> g \<in> set (GUILDS cfg) \<and> 0 < total_free s' g \<and> LEAVE_FREE cfg < total_free s' g
      | Inl e \<Rightarrow>
          (e = RuntimeError_empty_and_full \<and> Emoji_table s' = [] \<and>
             (\<forall>g \<in> set (GUILDS cfg). total_free s' g \<le> LEAVE_FREE cfg)) \<or>
          (e = ValueError_sample \<and> LEAVE_FREE cfg < 0))"
proof (induction s rule: find_guild_induct [where cfg = cfg])
  case (select s)
  let ?res = "random_sample (map fst (free_spaces_loop cfg s (GUILDS cfg) []))
             (map snd (free_spaces_loop cfg s (GUILDS cfg) [])) rnd"
  have eq: "find_guild cfg rnd s = (?res, s)"
    using select by (rule find_guild_eligible)
  have "case ?res of
        Inr g \<Rightarrow> g \<in> set (GUILDS cfg) \<and> 0 < total_free s g \<and> LEAVE_FREE cfg < total_free s g
      | Inl e \<Rightarrow> e = ValueError_sample \<and> LEAVE_FREE cfg < 0"
  proof (cases ?res)
    case (Inr g)
    with select_positive [of cfg s rnd g] show ?thesis by simp
  next
    case (Inl e)
    with select_succeeds [OF _ select, of rnd] have neg: "LEAVE_FREE cfg < 0" by fastforce
    from Inl select have "e = ValueError_sample"
      by (auto simp: random_sample_def Let_def accumulate_def length_accumulate_from
          accumulate_from_Nil split: if_splits)
    with neg Inl show ?thesis by simp
  qed
  with eq show ?case by (auto split: sum.splits)
next
  case (empty s)
  then have "find_guild cfg rnd s = (Inl RuntimeError_empty_and_full, log Select_Oldest s)"
    by (rule find_guild_no_record)
  moreover have "\<forall>g \<in> set (GUILDS cfg). total_free s g \<le> LEAVE_FREE cfg"
    using empty by (simp add: no_free_space)
  ultimately show ?case using empty by (simp add: log_def deleted_append total_free_log [unfolded log_def])
next
  case (evict s r s1)
  from evict_oldest [OF evict(2)] evict(3)
  have rows: "Emoji_table s1 = filter (\<lambda>x. emoji_id x \<noteq> emoji_id r) (Emoji_table s)"
    and tr: "deleted (trace s1) = deleted (trace s) @ [emoji_id r]"
    by (auto simp: deleted_append)
  have r: "r \<in> set (Emoji_table s)" using evict(2) by (rule oldest_in)
  have shorter: "Suc (length (Emoji_table s1)) \<le> length (Emoji_table s)"
    using filter_key_shorter [OF r, of emoji_id] rows by simp
  have exact: "Suc (length (Emoji_table s1)) = length (Emoji_table s)"
    and d1: "distinct (map emoji_id (Emoji_table s1))"
    if "distinct (map emoji_id (Emoji_table s))"
    using that key_filter_length [of emoji_id "Emoji_table s" r] r rows
    by (simp_all add: distinct_map_filter)
  have eq: "find_guild cfg rnd s = find_guild cfg rnd s1"
    using evict(1-3) by (rule find_guild_step)
  from evict(4) obtain res s' ids where
    res: "find_guild cfg rnd s1 = (res, s')"
    and ids: "deleted (trace s') = deleted (trace s1) @ ids"
    and le: "length ids + length (Emoji_table s') \<le> length (Emoji_table s1)"
    and ex: "distinct (map emoji_id (Emoji_table s1)) \<longrightarrow>
        length ids + length (Emoji_table s') = length (Emoji_table s1)"
    and out: "case res of
        Inr g \<Rightarrow> g \<in> set (GUILDS cfg) \<and> 0 < total_free s' g \<and> LEAVE_FREE cfg < total_free s' g
      | Inl e \<Rightarrow>
          (e = RuntimeError_empty_and_full \<and> Emoji_table s' = [] \<and>
             (\<forall>g \<in> set (GUILDS cfg). total_free s' g \<le> LEAVE_FREE cfg)) \<or>
          (e = ValueError_sample \<and> LEAVE_FREE cfg < 0)"
    by blast
  from le shorter have le': "length (emoji_id r # ids) + length (Emoji_table s') \<le> length (Emoji_table s)"
    by simp
  have ex': "length (emoji_id r # ids) + length (Emoji_table s') = length (Emoji_table s)"
    if "distinct (map emoji_id (Emoji_table s))"
    using exact [OF that] d1 [OF that] ex by simp
  have "deleted (trace s') = deleted (trace s) @ emoji_id r # ids"
    using ids tr by simp
  with eq res le' ex' out show ?case
    by (intro exI [of _ res] exI [of _ s'] exI [of _ "emoji_id r # ids"]) simp
qed

section \<open>The claims\<close>

subsection \<open>Fetch\<close>

text \<open>
  C9.  For every state, \<open>fetch_emoji\<close> with no id returns the configured not-found
  emoji and returns the state as it was: both tables are unchanged and the journal has
  no new entry, so no call was made on the database or the platform.
\<close>

theorem fetch_emoji_None:
  "fetch_emoji cfg now None s = (Inr (NOT_FOUND cfg), s) \<and>
   Emoji_table (snd (fetch_emoji cfg now None s)) = Emoji_table s \<and>
   UserEmoji_table (snd (fetch_emoji cfg now None s)) = UserEmoji_table s \<and>
   trace (snd (fetch_emoji cfg now None s)) = trace s"
  by (simp add: fetch_emoji_def)

theorem fetch_emoji_None_witness:
  "fetch_emoji cfg0 100 None s_full = (Inr (static_emoji 0 0), s_full)"
  using fetch_emoji_None [of cfg0 100 s_full] by (simp add: cfg0_def)

text \<open>
  C5.  When the id has a record and the emoji is no longer in the client's cache,
  \<open>fetch_emoji\<close> raises the \<open>RuntimeError\<close> "Emoji in cache was deleted." (the
  spec's Desynced) and the record is gone from the table, all other records being kept;
  a second \<open>fetch_emoji\<close> with the same id, at any later time, raises the
  \<open>ValueError\<close> "not in cache" (the spec's NotCached).
\<close>

theorem fetch_emoji_desynced:
  assumes "i \<in> emoji_id ` set (Emoji_table s)" and "i \<notin> emoji_ident ` set (emojis s)"
  shows "\<exists>s'. fetch_emoji cfg now (Some i) s = (Inl RuntimeError_deleted, s') \<and>
           Emoji_table s' = filter (\<lambda>r. emoji_id r \<noteq> i) (Emoji_table s) \<and>
           i \<notin> emoji_id ` set (Emoji_table s') \<and>
           fst (fetch_emoji cfg now' (Some i) s') = Inl (ValueError_not_in_cache i)"
proof -
  from assms(1) obtain r where r: "find (\<lambda>r. emoji_id r = i) (Emoji_table s) = Some r"
    using find_None_iff_key [of emoji_id i "Emoji_table s"] by fastforce
  then have k: "emoji_id r = i" using find_key by fastforce
  from assms(2) have g: "find (\<lambda>e. emoji_ident e = i) (emojis s) = None"
    by (simp add: find_None_iff_key)
  show ?thesis using r k g
    by (auto simp: fetch_emoji_def Emoji_fetch_row_def get_emoji_def Emoji_update_record_def
        Emoji_delete_record_def log_def filter_update_key find_filter_other)
qed

theorem fetch_emoji_desynced_witness:
  "10 \<in> emoji_id ` set (Emoji_table s_desync) \<and>
   10 \<notin> emoji_ident ` set (emojis s_desync) \<and>
   (\<exists>s'. fetch_emoji cfg0 100 (Some 10) s_desync = (Inl RuntimeError_deleted, s') \<and>
      Emoji_table s' = filter (\<lambda>r. emoji_id r \<noteq> 10) (Emoji_table s_desync) \<and>
      10 \<notin> emoji_id ` set (Emoji_table s') \<and>
      fst (fetch_emoji cfg0 101 (Some 10) s') = Inl (ValueError_not_in_cache 10))"
proof -
  have h1: "10 \<in> emoji_id ` set (Emoji_table s_desync)"
    by (simp add: s_desync_def s_full_def)
  have h2: "10 \<notin> emoji_ident ` set (emojis s_desync)"
    by (simp add: s_desync_def s_full_def static_emoji_def)
  from fetch_emoji_desynced [OF h1 h2, of cfg0 100 101] h1 h2 show ?thesis
    by blast
qed

text \<open>
  C8.  On a hit (the id has a record) the journal of \<open>fetch_emoji\<close> is: the select
  of the record, the update of \<open>last_fetched\<close> to the current time, and only then the
  lookup of the emoji in the client's cache.  The update is there also when the lookup
  fails and the call raises Desynced (the delete of the record then follows it); when
  the call does not raise Desynced, the record's \<open>last_fetched\<close> is the current time
  in the state returned.
\<close>

theorem fetch_emoji_update_first:
  assumes "i \<in> emoji_id ` set (Emoji_table s)"
  shows "\<exists>res s'. fetch_emoji cfg now (Some i) s = (res, s') \<and>
           trace s' = trace s @ [Select_Emoji i, Update_Emoji i now, Get_Emoji i] @
             (if res = Inl RuntimeError_deleted then [Delete_Emoji i] else []) \<and>
           (res = Inl RuntimeError_deleted \<longleftrightarrow> i \<notin> emoji_ident ` set (emojis s)) \<and>
           (res \<noteq> Inl RuntimeError_deleted \<longrightarrow>
              (\<forall>r \<in> set (Emoji_table s'). emoji_id r = i \<longrightarrow> last_fetched r = now))"
proof -
  from assms obtain r where r: "find (\<lambda>r. emoji_id r = i) (Emoji_table s) = Some r"
    using find_None_iff_key [of emoji_id i "Emoji_table s"] by fastforce
  then have k: "emoji_id r = i" using find_key by fastforce
  show ?thesis
  proof (cases "find (\<lambda>e. emoji_ident e = i) (emojis s)")
    case None
    then have "i \<notin> emoji_ident ` set (emojis s)" by (simp add: find_None_iff_key)
    with None r k show ?thesis
      by (simp add: fetch_emoji_def Emoji_fetch_row_def get_emoji_def Emoji_update_record_def
          Emoji_delete_record_def log_def)
  next
    case (Some e)
    then have "i \<in> emoji_ident ` set (emojis s)"
      using find_None_iff_key [of emoji_ident i "emojis s"] by simp
    with Some r k show ?thesis
      by (auto simp: fetch_emoji_def Emoji_fetch_row_def get_emoji_def Emoji_update_record_def
          log_def)
  qed
qed

theorem fetch_emoji_update_first_witness:
  "10 \<in> emoji_id ` set (Emoji_table s_desync) \<and>
   fst (fetch_emoji cfg0 100 (Some 10) s_desync) = Inl RuntimeError_deleted \<and>
   trace (snd (fetch_emoji cfg0 100 (Some 10) s_desync)) =
     [Select_Emoji 10, Update_Emoji 10 100, Get_Emoji 10, Delete_Emoji 10]"
proof -
  have h: "10 \<in> emoji_id ` set (Emoji_table s_desync)"
    by (simp add: s_desync_def s_full_def)
  have e: "10 \<notin> emoji_ident ` set (emojis s_desync)"
    by (simp add: s_desync_def s_full_def static_emoji_def)
  have t: "trace s_desync = []"
    by (simp add: s_desync_def s_full_def)
  from fetch_emoji_update_first [OF h, of cfg0 100] e t h show ?thesis
    by auto
qed

subsection \<open>The selector\<close>

text \<open>
  C6.  Whenever \<open>find_guild\<close> returns a guild, the guild is one of the configured
  guilds and, in the state at the return (after the evictions of the call), its number
  of free slots is strictly positive, and above \<open>LEAVE_FREE\<close>.  This holds for every
  configuration, also one with a negative \<open>LEAVE_FREE\<close>: the weighted sample never
  returns an element whose count is not positive.
\<close>

theorem find_guild_free_positive:
  assumes "find_guild cfg rnd s = (Inr g, s')"
  shows "0 < total_free s' g \<and> LEAVE_FREE cfg < total_free s' g \<and> g \<in> set (GUILDS cfg)"
  using find_guild_outcome [of cfg rnd s] assms by auto

theorem find_guild_free_positive_witness:
  "fst (find_guild cfg0 0 s_full) = Inr guild_A \<and>
   0 < total_free (snd (find_guild cfg0 0 s_full)) guild_A"
proof -
  have f: "fst (find_guild cfg0 0 s_full) = Inr guild_A"
    by code_simp
  then have h: "find_guild cfg0 0 s_full = (Inr guild_A, snd (find_guild cfg0 0 s_full))"
    by (metis prod.collapse)
  from find_guild_free_positive [OF h] f show ?thesis by blast
qed

text \<open>
  C10, as amended.  \<open>find_guild\<close> is a total function: its definition is accepted with the number
  of records as the measure of its recursion.  For a configuration with a non-negative
  \<open>LEAVE_FREE\<close> and a table whose key \<open>emoji_id\<close> is unique, the call ends with one
  of the configured guilds, or with the \<open>RuntimeError\<close> "Emoji cache simultaneously
  empty and full." and no record left; the records deleted are as many as the
  records that have gone.  Each recursive call is made on the state left by
  \<open>delete_emoji\<close> on the oldest record, which has exactly one record less.
\<close>

theorem find_guild_terminates:
  assumes "0 \<le> LEAVE_FREE cfg" and "distinct (map emoji_id (Emoji_table s))"
  shows "(\<exists>res s' ids. find_guild cfg rnd s = (res, s') \<and>
            ((\<exists>g \<in> set (GUILDS cfg). res = Inr g) \<or>
             (res = Inl RuntimeError_empty_and_full \<and> Emoji_table s' = [])) \<and>
            deleted (trace s') = deleted (trace s) @ ids \<and>
            length ids + length (Emoji_table s') = length (Emoji_table s)) \<and>
         ((\<forall>g \<in> set (GUILDS cfg). total_free s g \<le> LEAVE_FREE cfg) \<and> Emoji_table s \<noteq> [] \<longrightarrow>
            (\<exists>r s1. oldest (Emoji_table s) = Some r \<and>
               delete_emoji (emoji_id r) (log Select_Oldest s) = (Inr (), s1) \<and>
               find_guild cfg rnd s = find_guild cfg rnd s1 \<and>
               Suc (length (Emoji_table s1)) = length (Emoji_table s) \<and>
               distinct (map emoji_id (Emoji_table s1))))"
proof
  from find_guild_outcome [of cfg rnd s] assms
  show "\<exists>res s' ids. find_guild cfg rnd s = (res, s') \<and>
            ((\<exists>g \<in> set (GUILDS cfg). res = Inr g) \<or>
             (res = Inl RuntimeError_empty_and_full \<and> Emoji_table s' = [])) \<and>
            deleted (trace s') = deleted (trace s) @ ids \<and>
            length ids + length (Emoji_table s') = length (Emoji_table s)"
    by (fastforce split: sum.splits)
next
  show "(\<forall>g \<in> set (GUILDS cfg). total_free s g \<le> LEAVE_FREE cfg) \<and> Emoji_table s \<noteq> [] \<longrightarrow>
            (\<exists>r s1. oldest (Emoji_table s) = Some r \<and>
               delete_emoji (emoji_id r) (log Select_Oldest s) = (Inr (), s1) \<and>
               find_guild cfg rnd s = find_guild cfg rnd s1 \<and>
               Suc (length (Emoji_table s1)) = length (Emoji_table s) \<and>
               distinct (map emoji_id (Emoji_table s1)))"
  proof
    assume a: "(\<forall>g \<in> set (GUILDS cfg). total_free s g \<le> LEAVE_FREE cfg) \<and> Emoji_table s \<noteq> []"
    then have fs: "free_spaces_loop cfg s (GUILDS cfg) [] = []"
      by (simp add: no_free_space)
    from a obtain r where r: "oldest (Emoji_table s) = Some r"
      using oldest_Some by blast
    from evict_oldest [OF r] obtain s1
      where s1: "delete_emoji (emoji_id r) (log Select_Oldest s) = (Inr (), s1)"
        and rows: "Emoji_table s1 = filter (\<lambda>x. emoji_id x \<noteq> emoji_id r) (Emoji_table s)"
      by blast
    have "r \<in> set (Emoji_table s)" using r by (rule oldest_in)
    with assms(2) rows have "Suc (length (Emoji_table s1)) = length (Emoji_table s)"
      using key_filter_length [of emoji_id "Emoji_table s" r] by simp
    moreover have "distinct (map emoji_id (Emoji_table s1))"
      using assms(2) rows by (simp add: distinct_map_filter)
    moreover have "find_guild cfg rnd s = find_guild cfg rnd s1"
      using fs r s1 by (rule find_guild_step)
    ultimately show "\<exists>r s1. oldest (Emoji_table s) = Some r \<and>
               delete_emoji (emoji_id r) (log Select_Oldest s) = (Inr (), s1) \<and>
               find_guild cfg rnd s = find_guild cfg rnd s1 \<and>
               Suc (length (Emoji_table s1)) = length (Emoji_table s) \<and>
               distinct (map emoji_id (Emoji_table s1))"
      using r s1 by blast
  qed
qed

theorem find_guild_terminates_witness:
  "0 \<le> LEAVE_FREE cfg1 \<and> distinct (map emoji_id (Emoji_table s_full)) \<and>
   total_free s_full guild_A \<le> LEAVE_FREE cfg1 \<and> total_free s_full guild_B \<le> LEAVE_FREE cfg1 \<and>
   Emoji_table s_full \<noteq> [] \<and>
   (\<exists>res s' ids. find_guild cfg1 0 s_full = (res, s') \<and>
      ((\<exists>g \<in> set (GUILDS cfg1). res = Inr g) \<or>
       (res = Inl RuntimeError_empty_and_full \<and> Emoji_table s' = [])) \<and>
      deleted (trace s') = deleted (trace s_full) @ ids \<and>
      length ids + length (Emoji_table s') = length (Emoji_table s_full)) \<and>
   (\<exists>r s1. oldest (Emoji_table s_full) = Some r \<and>
      delete_emoji (emoji_id r) (log Select_Oldest s_full) = (Inr (), s1) \<and>
      find_guild cfg1 0 s_full = find_guild cfg1 0 s1 \<and>
      Suc (length (Emoji_table s1)) = length (Emoji_table s_full) \<and>
      distinct (map emoji_id (Emoji_table s1)))"
proof -
  have h1: "0 \<le> LEAVE_FREE cfg1" by code_simp
  have h2: "distinct (map emoji_id (Emoji_table s_full))" by code_simp
  have h3: "total_free s_full guild_A \<le> LEAVE_FREE cfg1" "total_free s_full guild_B \<le> LEAVE_FREE cfg1"
    by code_simp+
  have h4: "Emoji_table s_full \<noteq> []" by code_simp
  have g: "GUILDS cfg1 = [guild_A, guild_B]" by code_simp
  from h3 g have h5: "\<forall>g \<in> set (GUILDS cfg1). total_free s_full g \<le> LEAVE_FREE cfg1" by simp
  from find_guild_terminates [OF h1 h2, of 0] h1 h2 h3 h4 h5 show ?thesis
    by blast
qed

text \<open>
  C10 as stated fails for a configuration with a negative \<open>LEAVE_FREE\<close>: with
  \<open>LEAVE_FREE = - 1\<close> the two full guilds enter the dictionary with zero free slots,
  and the call ends with the \<open>ValueError\<close> of \<open>random.sample\<close> while four records
  remain.
\<close>

theorem find_guild_sample_error:
  "LEAVE_FREE cfg_neg = - 1 \<and> GUILDS cfg_neg = [guild_A, guild_B] \<and>
   total_free s_full guild_A = 0 \<and> total_free s_full guild_B = 0 \<and>
   length (Emoji_table s_full) = 4 \<and>
   find_guild cfg_neg 0 s_full = (Inl ValueError_sample, s_full)"
  by code_simp

text \<open>
  C1, as amended.  For a configuration with a non-negative \<open>LEAVE_FREE\<close>, the only
  exception of \<open>find_guild\<close> is the \<open>RuntimeError\<close> "Emoji cache simultaneously
  empty and full.", and the call raises it exactly when it ends in a state where no
  record is left and every configured guild has \<open>total_free \<le> LEAVE_FREE\<close>: at or
  below the headroom, which need not mean full.  If some configured guild is above the
  headroom at the call, a guild is returned and the state is untouched; if none is and
  the table is empty at the call, the call fails.
\<close>

theorem find_guild_fails_iff:
  assumes "0 \<le> LEAVE_FREE cfg" and "find_guild cfg rnd s = (res, s')"
  shows "((\<exists>e. res = Inl e) \<longleftrightarrow>
            Emoji_table s' = [] \<and> (\<forall>g \<in> set (GUILDS cfg). total_free s' g \<le> LEAVE_FREE cfg)) \<and>
         (\<forall>e. res = Inl e \<longrightarrow> e = RuntimeError_empty_and_full) \<and>
         ((\<exists>g \<in> set (GUILDS cfg). LEAVE_FREE cfg < total_free s g) \<longrightarrow>
            s' = s \<and> (\<exists>g \<in> set (GUILDS cfg). res = Inr g)) \<and>
         ((\<forall>g \<in> set (GUILDS cfg). total_free s g \<le> LEAVE_FREE cfg) \<and> Emoji_table s = [] \<longrightarrow>
            res = Inl RuntimeError_empty_and_full)"
proof -
  from find_guild_outcome [of cfg rnd s] assms
  have out: "case res of
        Inr g \<Rightarrow> g \<in> set (GUILDS cfg) \<and> LEAVE_FREE cfg < total_free s' g
      | Inl e \<Rightarrow> e = RuntimeError_empty_and_full \<and> Emoji_table s' = [] \<and>
             (\<forall>g \<in> set (GUILDS cfg). total_free s' g \<le> LEAVE_FREE cfg)"
    by (auto split: sum.splits)
  have a: "(\<exists>e. res = Inl e) \<longleftrightarrow>
            Emoji_table s' = [] \<and> (\<forall>g \<in> set (GUILDS cfg). total_free s' g \<le> LEAVE_FREE cfg)"
    using out by (cases res) (auto simp: not_le [symmetric])
  have b: "\<forall>e. res = Inl e \<longrightarrow> e = RuntimeError_empty_and_full"
    using out by auto
  have c: "s' = s \<and> (\<exists>g \<in> set (GUILDS cfg). res = Inr g)"
    if "\<exists>g \<in> set (GUILDS cfg). LEAVE_FREE cfg < total_free s g"
  proof -
    from that have "free_spaces_loop cfg s (GUILDS cfg) [] \<noteq> []"
      unfolding no_free_space by (meson not_le)
    from find_guild_eligible [OF this, of rnd] assms(2) have "s' = s" by simp
    moreover from that this a out have "\<exists>g \<in> set (GUILDS cfg). res = Inr g"
      by (cases res) (auto simp: not_le [symmetric])
    ultimately show ?thesis by simp
  qed
  have d: "res = Inl RuntimeError_empty_and_full"
    if "(\<forall>g \<in> set (GUILDS cfg). total_free s g \<le> LEAVE_FREE cfg) \<and> Emoji_table s = []"
    using that find_guild_no_record [of cfg s rnd] assms(2) by (simp add: no_free_space)
  from a b c d show ?thesis by blast
qed

theorem find_guild_fails_iff_witness:
  "0 \<le> LEAVE_FREE cfg0 \<and>
   find_guild cfg0 0 s_full = (fst (find_guild cfg0 0 s_full), snd (find_guild cfg0 0 s_full)) \<and>
   fst (find_guild cfg0 0 s_full) = Inr guild_A \<and>
   Emoji_table (snd (find_guild cfg0 0 s_full)) \<noteq> [] \<and>
   0 \<le> LEAVE_FREE cfg1 \<and>
   find_guild cfg1 0 s_half = (Inl RuntimeError_empty_and_full, log Select_Oldest s_half) \<and>
   Emoji_table (log Select_Oldest s_half) = [] \<and>
   total_free (log Select_Oldest s_half) guild_A \<le> LEAVE_FREE cfg1 \<and>
   total_free (log Select_Oldest s_half) guild_B \<le> LEAVE_FREE cfg1"
proof -
  have h1: "0 \<le> LEAVE_FREE cfg0" by code_simp
  have h2: "find_guild cfg0 0 s_full = (fst (find_guild cfg0 0 s_full), snd (find_guild cfg0 0 s_full))"
    by simp
  have f: "fst (find_guild cfg0 0 s_full) = Inr guild_A" by code_simp
  have k1: "0 \<le> LEAVE_FREE cfg1" by code_simp
  have k2: "find_guild cfg1 0 s_half = (Inl RuntimeError_empty_and_full, log Select_Oldest s_half)"
    by code_simp
  have g: "guild_A \<in> set (GUILDS cfg1)" "guild_B \<in> set (GUILDS cfg1)" by code_simp+
  from find_guild_fails_iff [OF h1 h2] f
  have "Emoji_table (snd (find_guild cfg0 0 s_full)) \<noteq> [] \<or>
        \<not> (\<forall>g \<in> set (GUILDS cfg0). total_free (snd (find_guild cfg0 0 s_full)) g \<le> LEAVE_FREE cfg0)"
    by auto
  moreover have "Emoji_table (snd (find_guild cfg0 0 s_full)) \<noteq> []" by code_simp
  moreover from find_guild_fails_iff [OF k1 k2] g
  have "Emoji_table (log Select_Oldest s_half) = [] \<and>
     total_free (log Select_Oldest s_half) guild_A \<le> LEAVE_FREE cfg1 \<and>
     total_free (log Select_Oldest s_half) guild_B \<le> LEAVE_FREE cfg1"
    by blast
  ultimately show ?thesis using h1 h2 f k1 k2 by blast
qed

text \<open>
  C1 as stated fails: with \<open>LEAVE_FREE = 1\<close> and no record, the selector raises
  although each of the two guilds holds one emoji of a capacity of two.
\<close>

theorem find_guild_fails_with_room:
  "find_guild cfg1 0 s_half = (Inl RuntimeError_empty_and_full, log Select_Oldest s_half) \<and>
   GUILDS cfg1 = [guild_A, guild_B] \<and> Emoji_table s_half = [] \<and>
   emoji_limit guild_A = 2 \<and>
   length (filter (\<lambda>e. \<not> animated e) (guild_emojis s_half guild_A)) = 1 \<and>
   emoji_limit guild_B = 2 \<and>
   length (filter (\<lambda>e. \<not> animated e) (guild_emojis s_half guild_B)) = 1"
  by code_simp

text \<open>
  C3, as amended.  When every configured guild is at or below \<open>LEAVE_FREE\<close> and a
  record exists, \<open>find_guild\<close> first deletes a record of the least \<open>last_fetched\<close>
  among all records and then calls itself on the state so reached; the ids of the
  records it deletes start with that record's id.  The call makes exactly this one
  eviction if the eviction lifts some configured guild above \<open>LEAVE_FREE\<close>; otherwise
  it goes on with the then oldest record.
\<close>

theorem find_guild_evicts_oldest:
  assumes "\<forall>g \<in> set (GUILDS cfg). total_free s g \<le> LEAVE_FREE cfg" and "Emoji_table s \<noteq> []"
  shows "\<exists>r s1 ids. oldest (Emoji_table s) = Some r \<and> r \<in> set (Emoji_table s) \<and>
           (\<forall>x \<in> set (Emoji_table s). last_fetched r \<le> last_fetched x) \<and>
           delete_emoji (emoji_id r) (log Select_Oldest s) = (Inr (), s1) \<and>
           find_guild cfg rnd s = find_guild cfg rnd s1 \<and>
           deleted (trace (snd (find_guild cfg rnd s))) = deleted (trace s) @ emoji_id r # ids \<and>
           ((\<exists>g \<in> set (GUILDS cfg). LEAVE_FREE cfg < total_free s1 g) \<longrightarrow> ids = [])"
proof -
  from assms have fs: "free_spaces_loop cfg s (GUILDS cfg) [] = []"
    by (simp add: no_free_space)
  from assms obtain r where r: "oldest (Emoji_table s) = Some r"
    using oldest_Some by blast
  from evict_oldest [OF r] obtain s1
    where s1: "delete_emoji (emoji_id r) (log Select_Oldest s) = (Inr (), s1)"
      and tr: "deleted (trace s1) = deleted (trace s) @ [emoji_id r]"
    by (auto simp: deleted_append)
  have eq: "find_guild cfg rnd s = find_guild cfg rnd s1"
    using fs r s1 by (rule find_guild_step)
  from find_guild_outcome [of cfg rnd s1] obtain ids
    where ids: "deleted (trace (snd (find_guild cfg rnd s1))) = deleted (trace s1) @ ids"
    by auto
  have one: "ids = []" if "\<exists>g \<in> set (GUILDS cfg). LEAVE_FREE cfg < total_free s1 g"
  proof -
    from that have "free_spaces_loop cfg s1 (GUILDS cfg) [] \<noteq> []"
      unfolding no_free_space by (meson not_le)
    from find_guild_eligible [OF this, of rnd] ids show ?thesis by simp
  qed
  from r have "r \<in> set (Emoji_table s)" by (rule oldest_in)
  moreover have "\<forall>x \<in> set (Emoji_table s). last_fetched r \<le> last_fetched x"
    using r by (auto intro: oldest_min)
  ultimately show ?thesis using r s1 eq ids tr one by auto
qed

theorem find_guild_evicts_oldest_witness:
  "total_free s_full guild_A \<le> LEAVE_FREE cfg0 \<and> total_free s_full guild_B \<le> LEAVE_FREE cfg0 \<and>
   Emoji_table s_full \<noteq> [] \<and>
   (\<exists>r s1 ids. oldest (Emoji_table s_full) = Some r \<and> r \<in> set (Emoji_table s_full) \<and>
      (\<forall>x \<in> set (Emoji_table s_full). last_fetched r \<le> last_fetched x) \<and>
      delete_emoji (emoji_id r) (log Select_Oldest s_full) = (Inr (), s1) \<and>
      find_guild cfg0 0 s_full = find_guild cfg0 0 s1 \<and>
      deleted (trace (snd (find_guild cfg0 0 s_full))) = deleted (trace s_full) @ emoji_id r # ids \<and>
      ((\<exists>g \<in> set (GUILDS cfg0). LEAVE_FREE cfg0 < total_free s1 g) \<longrightarrow> ids = [])) \<and>
   oldest (Emoji_table s_full) = Some row_10 \<and>
   deleted (trace (snd (find_guild cfg0 0 s_full))) = [10]"
proof -
  have h3: "total_free s_full guild_A \<le> LEAVE_FREE cfg0" "total_free s_full guild_B \<le> LEAVE_FREE cfg0"
    by code_simp+
  have h4: "Emoji_table s_full \<noteq> []" by code_simp
  have g: "GUILDS cfg0 = [guild_A, guild_B]" by code_simp
  from h3 g have h5: "\<forall>g \<in> set (GUILDS cfg0). total_free s_full g \<le> LEAVE_FREE cfg0" by simp
  have o: "oldest (Emoji_table s_full) = Some row_10" by code_simp
  have d: "deleted (trace (snd (find_guild cfg0 0 s_full))) = [10]" by code_simp
  from find_guild_evicts_oldest [OF h5 h4, of 0] h3 h4 o d show ?thesis
    by blast
qed

text \<open>
  C3 as stated fails: with \<open>LEAVE_FREE = 1\<close> and two full guilds of capacity 2, one
  call evicts the records 10 and 11 before guild A has two free slots.
\<close>

theorem find_guild_evicts_twice:
  "total_free s_full guild_A \<le> LEAVE_FREE cfg1 \<and> total_free s_full guild_B \<le> LEAVE_FREE cfg1 \<and>
   GUILDS cfg1 = [guild_A, guild_B] \<and> length (Emoji_table s_full) = 4 \<and>
   fst (find_guild cfg1 0 s_full) = Inr guild_A \<and>
   deleted (trace (snd (find_guild cfg1 0 s_full))) = [10, 11] \<and>
   length (Emoji_table (snd (find_guild cfg1 0 s_full))) = 2"
  by code_simp


subsection \<open>Deletion\<close>

text \<open>
  C4, as amended.  \<open>delete_emoji\<close> on an id that has a record succeeds, and a second
  \<open>delete_emoji\<close> on the same id raises the \<open>ValueError\<close> "not in cache".  The
  eviction step of \<open>find_guild\<close> is a call of this same \<open>delete_emoji\<close>: repeated on
  the record it has deleted, it raises the same \<open>ValueError\<close>.  What the delete
  tolerates is an emoji that is already gone from the platform: the record is then
  deleted without a platform call (the journal of the call is the select of the record,
  the lookup in the cache and the delete of the record) and without an error.
\<close>

theorem delete_emoji_twice:
  "(i \<in> emoji_id ` set (Emoji_table s) \<longrightarrow>
      (\<exists>s1. delete_emoji i s = (Inr (), s1) \<and>
         delete_emoji i s1 = (Inl (ValueError_not_in_cache i), log (Select_Emoji i) s1))) \<and>
   ((\<forall>g \<in> set (GUILDS cfg). total_free s g \<le> LEAVE_FREE cfg) \<and>
    oldest (Emoji_table s) = Some r \<longrightarrow>
      (\<exists>s1. delete_emoji (emoji_id r) (log Select_Oldest s) = (Inr (), s1) \<and>
         find_guild cfg rnd s = find_guild cfg rnd s1 \<and>
         delete_emoji (emoji_id r) s1 =
           (Inl (ValueError_not_in_cache (emoji_id r)), log (Select_Emoji (emoji_id r)) s1))) \<and>
   (i \<in> emoji_id ` set (Emoji_table s) \<and> i \<notin> emoji_ident ` set (emojis s) \<longrightarrow>
      (\<exists>s1. delete_emoji i s = (Inr (), s1) \<and> emojis s1 = emojis s \<and>
         i \<notin> emoji_id ` set (Emoji_table s1) \<and>
         trace s1 = trace s @ [Select_Emoji i, Get_Emoji i, Delete_Emoji i]))"
proof (intro conjI impI)
  assume i: "i \<in> emoji_id ` set (Emoji_table s)"
  from delete_emoji_present [OF i] obtain s1
    where s1: "delete_emoji i s = (Inr (), s1)"
      and rows: "Emoji_table s1 = filter (\<lambda>r. emoji_id r \<noteq> i) (Emoji_table s)"
    by blast
  from rows have "i \<notin> emoji_id ` set (Emoji_table s1)" by auto
  from delete_emoji_absent [OF this] s1
  show "\<exists>s1. delete_emoji i s = (Inr (), s1) \<and>
         delete_emoji i s1 = (Inl (ValueError_not_in_cache i), log (Select_Emoji i) s1)"
    by blast
next
  assume a: "(\<forall>g \<in> set (GUILDS cfg). total_free s g \<le> LEAVE_FREE cfg) \<and>
    oldest (Emoji_table s) = Some r"
  then have fs: "free_spaces_loop cfg s (GUILDS cfg) [] = []" and r: "oldest (Emoji_table s) = Some r"
    by (simp_all add: no_free_space)
  from evict_oldest [OF r] obtain s1
    where s1: "delete_emoji (emoji_id r) (log Select_Oldest s) = (Inr (), s1)"
      and rows: "Emoji_table s1 = filter (\<lambda>x. emoji_id x \<noteq> emoji_id r) (Emoji_table s)"
    by blast
  from rows have "emoji_id r \<notin> emoji_id ` set (Emoji_table s1)" by auto
  from delete_emoji_absent [OF this] s1 find_guild_step [OF fs r s1, of rnd]
  show "\<exists>s1. delete_emoji (emoji_id r) (log Select_Oldest s) = (Inr (), s1) \<and>
         find_guild cfg rnd s = find_guild cfg rnd s1 \<and>
         delete_emoji (emoji_id r) s1 =
           (Inl (ValueError_not_in_cache (emoji_id r)), log (Select_Emoji (emoji_id r)) s1)"
    by blast
next
  assume a: "i \<in> emoji_id ` set (Emoji_table s) \<and> i \<notin> emoji_ident ` set (emojis s)"
  then have "\<forall>e \<in> set (emojis s). emoji_ident e \<noteq> i"
    by blast
  then have "filter (\<lambda>e. emoji_ident e \<noteq> i) (emojis s) = emojis s"
    by simp
  with delete_emoji_present [of i s] a
  show "\<exists>s1. delete_emoji i s = (Inr (), s1) \<and> emojis s1 = emojis s \<and>
         i \<notin> emoji_id ` set (Emoji_table s1) \<and>
         trace s1 = trace s @ [Select_Emoji i, Get_Emoji i, Delete_Emoji i]"
    by auto
qed

theorem delete_emoji_twice_witness:
  "10 \<in> emoji_id ` set (Emoji_table s_full) \<and>
   (\<exists>s1. delete_emoji 10 s_full = (Inr (), s1) \<and>
      delete_emoji 10 s1 = (Inl (ValueError_not_in_cache 10), log (Select_Emoji 10) s1)) \<and>
   total_free s_full guild_A \<le> LEAVE_FREE cfg0 \<and> total_free s_full guild_B \<le> LEAVE_FREE cfg0 \<and>
   oldest (Emoji_table s_full) = Some row_10 \<and>
   (\<exists>s1. delete_emoji (emoji_id row_10) (log Select_Oldest s_full) = (Inr (), s1) \<and>
      find_guild cfg0 0 s_full = find_guild cfg0 0 s1 \<and>
      delete_emoji (emoji_id row_10) s1 =
        (Inl (ValueError_not_in_cache (emoji_id row_10)), log (Select_Emoji (emoji_id row_10)) s1)) \<and>
   10 \<in> emoji_id ` set (Emoji_table s_desync) \<and> 10 \<notin> emoji_ident ` set (emojis s_desync) \<and>
   (\<exists>s1. delete_emoji 10 s_desync = (Inr (), s1) \<and> emojis s1 = emojis s_desync \<and>
      10 \<notin> emoji_id ` set (Emoji_table s1) \<and>
      trace s1 = trace s_desync @ [Select_Emoji 10, Get_Emoji 10, Delete_Emoji 10]) \<and>
   trace (snd (delete_emoji 10 s_desync)) = [Select_Emoji 10, Get_Emoji 10, Delete_Emoji 10]"
proof -
  have h1: "10 \<in> emoji_id ` set (Emoji_table s_full)"
    by (simp add: s_full_def)
  have h3: "total_free s_full guild_A \<le> LEAVE_FREE cfg0" "total_free s_full guild_B \<le> LEAVE_FREE cfg0"
    by code_simp+
  have g: "GUILDS cfg0 = [guild_A, guild_B]" by code_simp
  from h3 g have h5: "\<forall>g \<in> set (GUILDS cfg0). total_free s_full g \<le> LEAVE_FREE cfg0" by simp
  have o: "oldest (Emoji_table s_full) = Some row_10" by code_simp
  have d1: "10 \<in> emoji_id ` set (Emoji_table s_desync)"
    by (simp add: s_desync_def s_full_def)
  have d2: "10 \<notin> emoji_ident ` set (emojis s_desync)"
    by (simp add: s_desync_def s_full_def static_emoji_def)
  from delete_emoji_twice [of 10 s_full cfg0 row_10 0] h1 h5 o
  have a: "\<exists>s1. delete_emoji 10 s_full = (Inr (), s1) \<and>
      delete_emoji 10 s1 = (Inl (ValueError_not_in_cache 10), log (Select_Emoji 10) s1)"
    and b: "\<exists>s1. delete_emoji (emoji_id row_10) (log Select_Oldest s_full) = (Inr (), s1) \<and>
      find_guild cfg0 0 s_full = find_guild cfg0 0 s1 \<and>
      delete_emoji (emoji_id row_10) s1 =
        (Inl (ValueError_not_in_cache (emoji_id row_10)), log (Select_Emoji (emoji_id row_10)) s1)"
    by blast+
  from delete_emoji_twice [of 10 s_desync cfg0 row_10 0] d1 d2
  have c: "\<exists>s1. delete_emoji 10 s_desync = (Inr (), s1) \<and> emojis s1 = emojis s_desync \<and>
      10 \<notin> emoji_id ` set (Emoji_table s1) \<and>
      trace s1 = trace s_desync @ [Select_Emoji 10, Get_Emoji 10, Delete_Emoji 10]"
    by blast
  have t: "trace s_desync = []"
    by (simp add: s_desync_def s_full_def)
  from c t have j: "trace (snd (delete_emoji 10 s_desync)) =
      [Select_Emoji 10, Get_Emoji 10, Delete_Emoji 10]"
    by auto
  from h1 a h3 o b d1 d2 c j show ?thesis
    by (intro conjI)
qed

text \<open>
  C4 as stated fails: the delete that the selector makes to evict emoji 10, applied
  again to the state it leaves, is an error and not a no-op.
\<close>

theorem eviction_delete_repeated:
  "total_free s_full guild_A \<le> LEAVE_FREE cfg0 \<and> total_free s_full guild_B \<le> LEAVE_FREE cfg0 \<and>
   GUILDS cfg0 = [guild_A, guild_B] \<and>
   oldest (Emoji_table s_full) = Some row_10 \<and> emoji_id row_10 = 10 \<and>
   fst (delete_emoji 10 (log Select_Oldest s_full)) = Inr () \<and>
   find_guild cfg0 0 s_full = find_guild cfg0 0 (snd (delete_emoji 10 (log Select_Oldest s_full))) \<and>
   fst (delete_emoji 10 (snd (delete_emoji 10 (log Select_Oldest s_full)))) =
     Inl (ValueError_not_in_cache 10)"
  by code_simp

subsection \<open>The emoji of a user\<close>

text \<open>
  C7.  \<open>fetch_user_emoji\<close> without a user is \<open>fetch_emoji\<close> without an id.  With a
  user, the binding is looked up.  Without a binding the result is that of
  \<open>create_user_emoji\<close>.  With a binding, the bound emoji is fetched: a fetched emoji
  is returned; when the fetch raises the \<open>RuntimeError\<close> "Emoji in cache was
  deleted." the binding is deleted (the user has no binding left) and the result is
  that of \<open>create_user_emoji\<close> on the state so reached.
\<close>

theorem fetch_user_emoji_cases:
  "fetch_user_emoji cfg rnd fresh now None s = fetch_emoji cfg now None s \<and>
   (user_ident u \<notin> user_id ` set (UserEmoji_table s) \<longrightarrow>
      fetch_user_emoji cfg rnd fresh now (Some u) s =
        create_user_emoji cfg rnd fresh now u (log (Select_UserEmoji (user_ident u)) s)) \<and>
   (find (\<lambda>b. user_id b = user_ident u) (UserEmoji_table s) = Some b \<and>
    fetch_emoji cfg now (Some (bound_emoji_id b)) (log (Select_UserEmoji (user_ident u)) s) =
      (Inr e, s2) \<longrightarrow>
      fetch_user_emoji cfg rnd fresh now (Some u) s = (Inr e, s2)) \<and>
   (find (\<lambda>b. user_id b = user_ident u) (UserEmoji_table s) = Some b \<and>
    fetch_emoji cfg now (Some (bound_emoji_id b)) (log (Select_UserEmoji (user_ident u)) s) =
      (Inl RuntimeError_deleted, s2) \<longrightarrow>
      fetch_user_emoji cfg rnd fresh now (Some u) s =
        create_user_emoji cfg rnd fresh now u (UserEmoji_delete_record b s2) \<and>
      user_ident u \<notin> user_id ` set (UserEmoji_table (UserEmoji_delete_record b s2)) \<and>
      trace (UserEmoji_delete_record b s2) = trace s2 @ [Delete_UserEmoji (user_ident u)])"
proof (intro conjI impI)
  show "fetch_user_emoji cfg rnd fresh now None s = fetch_emoji cfg now None s"
    by (simp add: fetch_user_emoji_def)
next
  assume "user_ident u \<notin> user_id ` set (UserEmoji_table s)"
  then have "find (\<lambda>b. user_id b = user_ident u) (UserEmoji_table s) = None"
    by (simp add: find_None_iff_key)
  then show "fetch_user_emoji cfg rnd fresh now (Some u) s =
        create_user_emoji cfg rnd fresh now u (log (Select_UserEmoji (user_ident u)) s)"
    by (simp add: fetch_user_emoji_def UserEmoji_fetch_row_def)
next
  assume "find (\<lambda>b. user_id b = user_ident u) (UserEmoji_table s) = Some b \<and>
    fetch_emoji cfg now (Some (bound_emoji_id b)) (log (Select_UserEmoji (user_ident u)) s) =
      (Inr e, s2)"
  then show "fetch_user_emoji cfg rnd fresh now (Some u) s = (Inr e, s2)"
    by (simp add: fetch_user_emoji_def UserEmoji_fetch_row_def)
next
  assume a: "find (\<lambda>b. user_id b = user_ident u) (UserEmoji_table s) = Some b \<and>
    fetch_emoji cfg now (Some (bound_emoji_id b)) (log (Select_UserEmoji (user_ident u)) s) =
      (Inl RuntimeError_deleted, s2)"
  then show "fetch_user_emoji cfg rnd fresh now (Some u) s =
        create_user_emoji cfg rnd fresh now u (UserEmoji_delete_record b s2)"
    by (simp add: fetch_user_emoji_def UserEmoji_fetch_row_def)
  from a have k: "user_id b = user_ident u"
    using find_key [of user_id "user_ident u" "UserEmoji_table s" b] by simp
  then show "user_ident u \<notin> user_id ` set (UserEmoji_table (UserEmoji_delete_record b s2))"
    by (auto simp: UserEmoji_delete_record_def log_def)
  from k show "trace (UserEmoji_delete_record b s2) = trace s2 @ [Delete_UserEmoji (user_ident u)]"
    by (simp add: UserEmoji_delete_record_def log_def)
qed

theorem fetch_user_emoji_cases_witness:
  "fetch_user_emoji cfg0 0 20 100 None s_full = fetch_emoji cfg0 100 None s_full \<and>
   user_ident user_8 \<notin> user_id ` set (UserEmoji_table s_full) \<and>
   fetch_user_emoji cfg0 0 20 100 (Some user_8) s_full =
     create_user_emoji cfg0 0 20 100 user_8 (log (Select_UserEmoji (user_ident user_8)) s_full) \<and>
   find (\<lambda>b. user_id b = user_ident user_7) (UserEmoji_table s_full) = Some binding_7 \<and>
   fst (fetch_emoji cfg0 100 (Some (bound_emoji_id binding_7))
          (log (Select_UserEmoji (user_ident user_7)) s_full)) = Inr (static_emoji 10 1) \<and>
   fst (fetch_user_emoji cfg0 0 20 100 (Some user_7) s_full) = Inr (static_emoji 10 1) \<and>
   find (\<lambda>b. user_id b = user_ident user_7) (UserEmoji_table s_desync) = Some binding_7 \<and>
   fst (fetch_emoji cfg0 100 (Some (bound_emoji_id binding_7))
          (log (Select_UserEmoji (user_ident user_7)) s_desync)) = Inl RuntimeError_deleted \<and>
   fetch_user_emoji cfg0 0 20 100 (Some user_7) s_desync =
     create_user_emoji cfg0 0 20 100 user_7
       (UserEmoji_delete_record binding_7
          (snd (fetch_emoji cfg0 100 (Some (bound_emoji_id binding_7))
                  (log (Select_UserEmoji (user_ident user_7)) s_desync)))) \<and>
   fst (fetch_user_emoji cfg0 0 20 100 (Some user_7) s_desync) =
     Inr \<lparr>emoji_ident = 20, emoji_guild = 1, animated = False, emoji_name = ''AnnB0042''\<rparr> \<and>
   UserEmoji_table (snd (fetch_user_emoji cfg0 0 20 100 (Some user_7) s_desync)) =
     [\<lparr>user_id = 7, bound_emoji_id = 20\<rparr>]"
proof -
  let ?f = "\<lambda>s. fetch_emoji cfg0 100 (Some (bound_emoji_id binding_7))
          (log (Select_UserEmoji (user_ident user_7)) s)"
  have n: "user_ident user_8 \<notin> user_id ` set (UserEmoji_table s_full)"
    by (simp add: user_8_def s_full_def)
  have b1: "find (\<lambda>b. user_id b = user_ident user_7) (UserEmoji_table s_full) = Some binding_7"
    by code_simp
  have f1: "fst (?f s_full) = Inr (static_emoji 10 1)"
    by code_simp
  then have e1: "?f s_full = (Inr (static_emoji 10 1), snd (?f s_full))"
    by (metis prod.collapse)
  have b2: "find (\<lambda>b. user_id b = user_ident user_7) (UserEmoji_table s_desync) = Some binding_7"
    by code_simp
  have f2: "fst (?f s_desync) = Inl RuntimeError_deleted"
    by code_simp
  then have e2: "?f s_desync = (Inl RuntimeError_deleted, snd (?f s_desync))"
    by (metis prod.collapse)
  have r: "fst (fetch_user_emoji cfg0 0 20 100 (Some user_7) s_desync) =
     Inr \<lparr>emoji_ident = 20, emoji_guild = 1, animated = False, emoji_name = ''AnnB0042''\<rparr>"
    "UserEmoji_table (snd (fetch_user_emoji cfg0 0 20 100 (Some user_7) s_desync)) =
     [\<lparr>user_id = 7, bound_emoji_id = 20\<rparr>]"
    by code_simp+
  note a = fetch_user_emoji_cases [where cfg = cfg0 and rnd = 0 and fresh = 20 and now = 100
      and s = s_full and u = user_8]
  note b = fetch_user_emoji_cases [where cfg = cfg0 and rnd = 0 and fresh = 20 and now = 100
      and s = s_full and u = user_7 and b = binding_7 and e = "static_emoji 10 1"
      and ?s2.0 = "snd (?f s_full)"]
  note c = fetch_user_emoji_cases [where cfg = cfg0 and rnd = 0 and fresh = 20 and now = 100
      and s = s_desync and u = user_7 and b = binding_7
      and ?s2.0 = "snd (?f s_desync)"]
  from a n have 1: "fetch_user_emoji cfg0 0 20 100 None s_full = fetch_emoji cfg0 100 None s_full"
    "fetch_user_emoji cfg0 0 20 100 (Some user_8) s_full =
     create_user_emoji cfg0 0 20 100 user_8 (log (Select_UserEmoji (user_ident user_8)) s_full)"
    by blast+
  from b b1 e1 have 2: "fst (fetch_user_emoji cfg0 0 20 100 (Some user_7) s_full) = Inr (static_emoji 10 1)"
    by (metis fst_conv)
  from c b2 e2 have 3: "fetch_user_emoji cfg0 0 20 100 (Some user_7) s_desync =
     create_user_emoji cfg0 0 20 100 user_7
       (UserEmoji_delete_record binding_7 (snd (?f s_desync)))"
    by blast
  from 1 n b1 f1 2 b2 f2 3 r show ?thesis
    by (intro conjI)
qed

end
